theory Spec2Isabelle
  imports Main "HOL-Library.Word"
begin

unbundle bit_operations_syntax

section \<open>The Tegra210 BPMP mailbox transport (mail\_t210.c)\<close>

text \<open>
  The driver shares a set of channels with the BPMP coprocessor. The owner of a channel is
  encoded in a two-bit token per channel, held in the status word of the arbitration
  semaphore; the driver changes tokens by writing bit masks into the set and clear
  sub-registers of that block.
\<close>

type_synonym u32 = "32 word"
type_synonym u8 = "8 word"

subsection \<open>Channel numbers and register offsets\<close>

definition CPU0_OB_CH0 :: int where "CPU0_OB_CH0 = 0"
definition CPU0_OB_CH1 :: int where "CPU0_OB_CH1 = 4"
definition CPU3_OB_CH1 :: int where "CPU3_OB_CH1 = 7"
definition CPU0_IB_CH :: int where "CPU0_IB_CH = 8"

definition CPU_OB_DOORBELL :: nat where "CPU_OB_DOORBELL = 4"

definition TRIGGER_OFFSET :: nat where "TRIGGER_OFFSET = 0x000"
definition RESULT_OFFSET :: "nat \<Rightarrow> nat" where "RESULT_OFFSET n = 0xc00 + n * 4"
definition TRIGGER_ID_SHIFT :: nat where "TRIGGER_ID_SHIFT = 16"
definition TRIGGER_CMD_GET :: u32 where "TRIGGER_CMD_GET = 4"

definition STA_OFFSET :: nat where "STA_OFFSET = 0"
definition SET_OFFSET :: nat where "SET_OFFSET = 4"
definition CLR_OFFSET :: nat where "CLR_OFFSET = 8"

definition PER_CPU_IB_CH :: "int \<Rightarrow> int" where "PER_CPU_IB_CH i = CPU0_IB_CH + i"

subsection \<open>The constants of bpmp.h\<close>

text \<open>
  The header bpmp.h is not among the sources at hand. The constants the driver takes from
  it are parameters of the model, collected in a record; every function that needs one
  takes the record as its first argument.
\<close>

record bpmp_h =
  NR_CHANNELS :: nat
  MSG_DATA_MIN_SZ :: int
  DO_ACK :: u32
  RING_DOORBELL :: u32

text \<open>
  Modelled from the spec: the reference configuration has 4 CPUs with 3 channels each and
  a payload capacity on the order of 120 bytes. The two flag bits are distinct single
  bits. This instance is used where a concrete configuration is needed.
\<close>

definition t210_h :: bpmp_h where
  "t210_h = \<lparr>NR_CHANNELS = 12, MSG_DATA_MIN_SZ = 120, DO_ACK = 1, RING_DOORBELL = 2\<rparr>"

text \<open>The errno values of the kernel, which the driver negates and returns.\<close>

definition ENODEV :: int where "ENODEV = 19"
definition EFAULT :: int where "EFAULT = 14"

subsection \<open>The token bits\<close>

text \<open>
  The macros shift a two-bit pattern to the slice of channel \<open>ch\<close>. The status word has
  32 bits, so it holds the slices of channels 0 to 15; the driver's channels are 0 to 11.
  A channel number is a \<open>nat\<close> here: the C shift by a negative amount is undefined.
\<close>

definition CH_MASK :: "nat \<Rightarrow> u32" where "CH_MASK ch = push_bit (ch * 2) 0x3"
definition SL_SIGL :: "nat \<Rightarrow> u32" where "SL_SIGL ch = push_bit (ch * 2) 0x0"
definition SL_QUED :: "nat \<Rightarrow> u32" where "SL_QUED ch = push_bit (ch * 2) 0x1"
definition MA_FREE :: "nat \<Rightarrow> u32" where "MA_FREE ch = push_bit (ch * 2) 0x2"
definition MA_ACKD :: "nat \<Rightarrow> u32" where "MA_ACKD ch = push_bit (ch * 2) 0x3"

subsection \<open>The arbitration semaphore\<close>

text \<open>
  Modelled from the spec: the arbitration-semaphore register block is hardware, reached
  through \<open>arb_sema\<close>; the source only names its three offsets. The block is its status
  word. A read at \<open>STA_OFFSET\<close> returns the status word; a write at \<open>SET_OFFSET\<close> sets the
  written bits and leaves the others; a write at \<open>CLR_OFFSET\<close> clears the written bits and
  leaves the others. The driver makes no other access; the model gives any other write no
  effect and any other read the value 0.
\<close>

definition raw_readl :: "nat \<Rightarrow> u32 \<Rightarrow> u32" where
  "raw_readl off sta = (if off = STA_OFFSET then sta else 0)"

definition raw_writel :: "u32 \<Rightarrow> nat \<Rightarrow> u32 \<Rightarrow> u32" where
  "raw_writel v off sta =
     (if off = SET_OFFSET then sta OR v
      else if off = CLR_OFFSET then sta AND NOT v
      else sta)"

subsection \<open>Reading and moving a token\<close>

definition bpmp_ch_sta :: "u32 \<Rightarrow> nat \<Rightarrow> u32" where
  "bpmp_ch_sta sta ch = raw_readl STA_OFFSET sta AND CH_MASK ch"

definition bpmp_master_free :: "u32 \<Rightarrow> nat \<Rightarrow> bool" where
  "bpmp_master_free sta ch \<longleftrightarrow> bpmp_ch_sta sta ch = MA_FREE ch"

definition bpmp_slave_signalled :: "u32 \<Rightarrow> nat \<Rightarrow> bool" where
  "bpmp_slave_signalled sta ch \<longleftrightarrow> bpmp_ch_sta sta ch = SL_SIGL ch"

definition bpmp_master_acked :: "u32 \<Rightarrow> nat \<Rightarrow> bool" where
  "bpmp_master_acked sta ch \<longleftrightarrow> bpmp_ch_sta sta ch = MA_ACKD ch"

definition bpmp_signal_slave :: "nat \<Rightarrow> u32 \<Rightarrow> u32" where
  "bpmp_signal_slave ch sta = raw_writel (CH_MASK ch) CLR_OFFSET sta"

definition bpmp_ack_master :: "bpmp_h \<Rightarrow> nat \<Rightarrow> u32 \<Rightarrow> u32 \<Rightarrow> u32" where
  "bpmp_ack_master h ch flags sta =
     (let sta1 = raw_writel (MA_ACKD ch) SET_OFFSET sta in
      if flags AND DO_ACK h \<noteq> 0 then sta1
      else raw_writel (MA_ACKD ch XOR MA_FREE ch) CLR_OFFSET sta1)"

definition bpmp_free_master :: "nat \<Rightarrow> u32 \<Rightarrow> u32" where
  "bpmp_free_master ch sta = raw_writel (MA_ACKD ch XOR MA_FREE ch) CLR_OFFSET sta"

text \<open>
  The three token operations of the driver as values, to speak of sequences of them:
  \<open>token_step\<close> performs one, on the channel \<open>token_op_ch\<close> names.
\<close>

datatype token_op =
    Signal_slave nat
  | Ack_master nat u32
  | Free_master nat

fun token_op_ch :: "token_op \<Rightarrow> nat" where
  "token_op_ch (Signal_slave ch) = ch"
| "token_op_ch (Ack_master ch fl) = ch"
| "token_op_ch (Free_master ch) = ch"

fun token_step :: "bpmp_h \<Rightarrow> token_op \<Rightarrow> u32 \<Rightarrow> u32" where
  "token_step h (Signal_slave ch) w = bpmp_signal_slave ch w"
| "token_step h (Ack_master ch fl) w = bpmp_ack_master h ch fl w"
| "token_step h (Free_master ch) w = bpmp_free_master ch w"

subsection \<open>The doorbell, the channel areas and the driver state\<close>

text \<open>
  A channel area is a \<open>struct mb_data\<close> in memory shared with the BPMP; \<open>channel_area\<close>
  holds, per channel, a pointer to the inbound and to the outbound area. Pointers are
  addresses, with 0 for \<open>NULL\<close>; \<open>mem\<close> gives the area behind an address and is undefined
  where a dereference would fault. \<open>arb_sema_sta\<close> is the status word of the arbitration
  semaphore and \<open>arb_sema\<close> the pointer to its block. An access to the trigger and result
  block, and a call of \<open>ioremap\<close>, goes to the log \<open>io_log\<close>.
\<close>

record mb_data =
  code :: int
  flags :: u32
  data :: "u8 list"

record channel_data =
  ib :: nat
  ob :: nat

datatype io_event =
    Writel u32 nat
  | Readl nat
  | Ioremap u32 nat

record mail_state =
  arb_sema_sta :: u32
  arb_sema :: nat
  mem :: "nat \<rightharpoonup> mb_data"
  channel_area :: "channel_data list"
  doorbells :: "nat list"
  warnings :: nat
  io_log :: "io_event list"

definition bpmp_ring_doorbell :: "nat \<Rightarrow> mail_state \<Rightarrow> mail_state" where
  "bpmp_ring_doorbell ch st = st\<lparr>doorbells := doorbells st @ [CPU_OB_DOORBELL]\<rparr>"

text \<open>
  \<open>bpmp_return_data\<close> answers a request of the BPMP. The result is \<open>None\<close> where the C
  code makes an invalid memory access: a channel outside \<open>channel_area\<close>, an unmapped
  pointer, a copy of more bytes than the source holds, or a negative size (which
  \<open>memcpy\<close> takes as a huge unsigned one). \<open>WARN_ON(1)\<close> counts in \<open>warnings\<close>.
\<close>

definition bpmp_return_data ::
  "bpmp_h \<Rightarrow> nat \<Rightarrow> int \<Rightarrow> u8 list \<Rightarrow> int \<Rightarrow> mail_state \<Rightarrow> mail_state option" where
  "bpmp_return_data h ch c dat sz st =
     (if sz > MSG_DATA_MIN_SZ h then Some (st\<lparr>warnings := Suc (warnings st)\<rparr>)
      else if length (channel_area st) \<le> ch then None
      else
        (case mem st (ob (channel_area st ! ch)) of
          None \<Rightarrow> None
        | Some p \<Rightarrow>
            if sz < 0 \<or> length dat < nat sz then None
            else
              (let p' = p\<lparr>code := c, data := take (nat sz) dat @ drop (nat sz) (data p)\<rparr>;
                   st1 = st\<lparr>mem := (mem st)(ob (channel_area st ! ch) \<mapsto> p')\<rparr>
               in
                 (case mem st1 (ib (channel_area st1 ! ch)) of
                   None \<Rightarrow> None
                 | Some q \<Rightarrow>
                     if arb_sema st1 = 0 then None
                     else
                       (let fl = flags q;
                            st2 = st1\<lparr>arb_sema_sta := bpmp_ack_master h ch fl (arb_sema_sta st1)\<rparr>
                        in Some (if fl AND RING_DOORBELL h \<noteq> 0
                                 then bpmp_ring_doorbell ch st2 else st2))))))"

subsection \<open>The deferrable channels\<close>

text \<open>The C \<open>int\<close> is an \<open>int\<close> here; on the channel numbers no operation overflows.\<close>

definition bpmp_thread_ch_index :: "int \<Rightarrow> int" where
  "bpmp_thread_ch_index ch = (if ch < CPU0_OB_CH1 \<or> ch > CPU3_OB_CH1 then - 1 else ch - CPU0_OB_CH1)"

definition bpmp_thread_ch :: "int \<Rightarrow> int" where
  "bpmp_thread_ch idx = CPU0_OB_CH1 + idx"

definition bpmp_ob_channel :: "int \<Rightarrow> int" where
  "bpmp_ob_channel smp_processor_id = smp_processor_id + CPU0_OB_CH0"

subsection \<open>Interrupt initialization\<close>

text \<open>
  \<open>bpmp_handle_irq\<close> is outside this file: the model of the doorbell handler returns the
  channel it hands to it. \<open>tegra_register_doorbell_handler\<close> belongs to the doorbell
  driver: its return code for a CPU and a context value is the parameter \<open>reg\<close>. The
  registration loop returns its result together with the calls it has made, each a CPU
  and the context value registered with \<open>bpmp_doorbell_handler\<close>.
\<close>

definition bpmp_doorbell_handler :: "int \<Rightarrow> int" where
  "bpmp_doorbell_handler d = (let ch = d in ch)"

function bpmp_init_irq_from ::
  "(nat \<Rightarrow> int \<Rightarrow> int) \<Rightarrow> nat \<Rightarrow> (nat \<times> int) list \<Rightarrow> int \<times> (nat \<times> int) list" where
  "bpmp_init_irq_from reg i calls =
     (if i < 4 then
        (let ch = PER_CPU_IB_CH (int i);
             r = reg i ch;
             calls' = calls @ [(i, ch)]
         in if r \<noteq> 0 then (r, calls') else bpmp_init_irq_from reg (Suc i) calls')
      else (0, calls))"
  by pat_completeness auto
termination
  by (relation "measure (\<lambda>(reg, i, calls). 4 - i)") auto

definition bpmp_init_irq :: "(nat \<Rightarrow> int \<Rightarrow> int) \<Rightarrow> int \<times> (nat \<times> int) list" where
  "bpmp_init_irq reg = bpmp_init_irq_from reg 0 []"

subsection \<open>The handshake\<close>

text \<open>
  What the platform answers is a parameter: \<open>of_iomap\<close> gives the address a register
  window is mapped at (0 when the window is absent), \<open>atomics_readl\<close> the value read at an
  offset of the trigger and result block after a trigger word has been written, and
  \<open>ioremap\<close> the address a physical address is mapped at.
\<close>

record platform =
  of_iomap :: "nat \<Rightarrow> nat"
  atomics_readl :: "u32 \<Rightarrow> nat \<Rightarrow> u32"
  ioremap :: "u32 \<Rightarrow> nat"

definition trigger_word :: "nat \<Rightarrow> u32" where
  "trigger_word ch = push_bit TRIGGER_ID_SHIFT (word_of_nat ch) OR TRIGGER_CMD_GET"

definition bpmp_channel_area :: "platform \<Rightarrow> nat \<Rightarrow> u32 \<times> io_event list" where
  "bpmp_channel_area pf ch =
     (let w = trigger_word ch;
          a = atomics_readl pf w (RESULT_OFFSET ch)
      in (a, [Writel w TRIGGER_OFFSET, Readl (RESULT_OFFSET ch)]))"

text \<open>
  The first loop of \<open>bpmp_connect\<close>, from channel \<open>i\<close> on: the addresses found, or \<open>None\<close>
  at the first address that is zero, and the device accesses made.
\<close>

function channel_hwaddr_from ::
  "bpmp_h \<Rightarrow> platform \<Rightarrow> nat \<Rightarrow> u32 list option \<times> io_event list" where
  "channel_hwaddr_from h pf i =
     (if i < NR_CHANNELS h then
        (case bpmp_channel_area pf i of
          (a, evs) \<Rightarrow>
            if a = 0 then (None, evs)
            else
              (case channel_hwaddr_from h pf (Suc i) of
                (r, evs') \<Rightarrow> (map_option (Cons a) r, evs @ evs')))
      else (Some [], []))"
  by pat_completeness auto
termination
  by (relation "measure (\<lambda>(h, pf, i). NR_CHANNELS h - i)") auto

text \<open>The second loop: channel \<open>i\<close> takes the first address of the list.\<close>

fun map_channel_areas :: "platform \<Rightarrow> nat \<Rightarrow> u32 list \<Rightarrow> mail_state \<Rightarrow> mail_state" where
  "map_channel_areas pf i [] st = st"
| "map_channel_areas pf i (a # as) st =
     (let p = ioremap pf a in
      map_channel_areas pf (Suc i) as
        (st\<lparr>channel_area := (channel_area st)[i := \<lparr>ib = p, ob = p\<rparr>],
            io_log := io_log st @ [Ioremap a 0x80]\<rparr>))"

definition bpmp_connect :: "bpmp_h \<Rightarrow> platform \<Rightarrow> mail_state \<Rightarrow> int \<times> mail_state" where
  "bpmp_connect h pf st =
     (let atomics = of_iomap pf 0 in
      if atomics = 0 then (- ENODEV, st)
      else
        (let st1 = st\<lparr>arb_sema := of_iomap pf 1\<rparr> in
         if arb_sema st1 = 0 then (- ENODEV, st1)
         else if raw_readl STA_OFFSET (arb_sema_sta st1) = 0 then (- ENODEV, st1)
         else
           (case channel_hwaddr_from h pf 0 of
             (None, evs) \<Rightarrow> (- EFAULT, st1\<lparr>io_log := io_log st1 @ evs\<rparr>)
           | (Some channel_hwaddr, evs) \<Rightarrow>
               (0, map_channel_areas pf 0 channel_hwaddr (st1\<lparr>io_log := io_log st1 @ evs\<rparr>)))))"

subsection \<open>Example configurations\<close>

text \<open>
  A connected driver state for the reference configuration: the channel area of channel
  \<open>i\<close> lies at address \<open>0x1000 + 0x80 * i\<close>, holds no data yet and asks, in its flags, for
  the doorbell; the outbound channels are free and the inbound ones signalled.
\<close>

definition example_area :: mb_data where
  "example_area = \<lparr>code = 0, flags = 2, data = replicate 120 0\<rparr>"

definition example_state :: mail_state where
  "example_state =
     \<lparr>arb_sema_sta = 0xAAAA, arb_sema = 0x800,
      mem = (\<lambda>a. if 0x1000 \<le> a \<and> a < 0x1600 \<and> (a - 0x1000) mod 0x80 = 0
                 then Some example_area else None),
      channel_area = map (\<lambda>i. \<lparr>ib = 0x1000 + 0x80 * i, ob = 0x1000 + 0x80 * i\<rparr>) [0..<12],
      doorbells = [], warnings = 0, io_log = []\<rparr>"

text \<open>
  A platform with both register windows, on which the BPMP has allocated every channel
  but those in \<open>missing\<close>.
\<close>

definition example_platform :: "nat list \<Rightarrow> platform" where
  "example_platform missing =
     \<lparr>of_iomap = (\<lambda>i. if i = 0 then 0x400 else if i = 1 then 0x800 else 0),
      atomics_readl = (\<lambda>w off.
        if off \<in> set (map RESULT_OFFSET missing) then 0
        else 0x1000 + 0x80 * drop_bit TRIGGER_ID_SHIFT w),
      ioremap = unat\<rparr>"

section \<open>Properties of the token bits\<close>

subsection \<open>Two-bit slices of a word\<close>

lemma three_mask: "(3 :: u32) = mask 2"
  by (simp add: mask_eq_exp_minus_1)

lemma slice_shift: "(w :: u32) AND push_bit k m = push_bit k (drop_bit k w AND m)"
  by (rule bit_eqI) (auto simp add: bit_simps)

lemma two_bits_cases:
  fixes x :: u32
  shows "x AND 3 = 0 \<or> x AND 3 = 1 \<or> x AND 3 = 2 \<or> x AND 3 = 3"
proof -
  define y where "y = x AND 3"
  have "y \<le> 3" unfolding y_def by (rule word_and_le1)
  then have "unat y \<le> 3" by (simp add: word_le_nat_alt)
  then consider "unat y = 0" | "unat y = 1" | "unat y = 2" | "unat y = 3" by arith
  then have "y = 0 \<or> y = 1 \<or> y = 2 \<or> y = 3"
  proof cases
    case 1 then show ?thesis by (simp add: unat_eq_0)
  next
    case 2 then have "word_of_nat (unat y) = (word_of_nat 1 :: u32)" by simp
    then show ?thesis by simp
  next
    case 3 then have "word_of_nat (unat y) = (word_of_nat 2 :: u32)" by simp
    then show ?thesis by simp
  next
    case 4 then have "word_of_nat (unat y) = (word_of_nat 3 :: u32)" by simp
    then show ?thesis by simp
  qed
  then show ?thesis by (simp add: y_def)
qed

lemma push_bit_two_bits_inj:
  fixes a b :: u32
  assumes k: "k \<le> 30" and eq: "push_bit k (a AND mask 2) = push_bit k (b AND mask 2)"
  shows "a AND mask 2 = b AND mask 2"
proof (rule bit_eqI)
  fix n
  from eq have "bit (push_bit k (a AND mask 2)) (k + n) = bit (push_bit k (b AND mask 2)) (k + n)"
    by simp
  with k show "bit (a AND mask 2) n = bit (b AND mask 2) n"
    by (auto simp add: bit_simps)
qed

lemma pattern_distinct:
  assumes "ch < 16"
  shows "SL_SIGL ch \<noteq> SL_QUED ch" and "SL_SIGL ch \<noteq> MA_FREE ch" and "SL_SIGL ch \<noteq> MA_ACKD ch"
    and "SL_QUED ch \<noteq> MA_FREE ch" and "SL_QUED ch \<noteq> MA_ACKD ch" and "MA_FREE ch \<noteq> MA_ACKD ch"
proof -
  from assms have k: "ch * 2 \<le> 30" by simp
  show "SL_SIGL ch \<noteq> SL_QUED ch"
    using push_bit_two_bits_inj [OF k, of 0 1] by (auto simp add: SL_SIGL_def SL_QUED_def simp flip: three_mask)
  show "SL_SIGL ch \<noteq> MA_FREE ch"
    using push_bit_two_bits_inj [OF k, of 0 2] by (auto simp add: SL_SIGL_def MA_FREE_def simp flip: three_mask)
  show "SL_SIGL ch \<noteq> MA_ACKD ch"
    using push_bit_two_bits_inj [OF k, of 0 3] by (auto simp add: SL_SIGL_def MA_ACKD_def simp flip: three_mask)
  show "SL_QUED ch \<noteq> MA_FREE ch"
    using push_bit_two_bits_inj [OF k, of 1 2] by (auto simp add: SL_QUED_def MA_FREE_def simp flip: three_mask)
  show "SL_QUED ch \<noteq> MA_ACKD ch"
    using push_bit_two_bits_inj [OF k, of 1 3] by (auto simp add: SL_QUED_def MA_ACKD_def simp flip: three_mask)
  show "MA_FREE ch \<noteq> MA_ACKD ch"
    using push_bit_two_bits_inj [OF k, of 2 3] by (auto simp add: MA_FREE_def MA_ACKD_def simp flip: three_mask)
qed

lemma ch_sta_shift: "bpmp_ch_sta w ch = push_bit (ch * 2) (drop_bit (ch * 2) w AND 3)"
  unfolding bpmp_ch_sta_def raw_readl_def CH_MASK_def by (simp only: refl if_True) (rule slice_shift)

lemma ch_sta_cases:
  "bpmp_ch_sta w ch = SL_SIGL ch \<or> bpmp_ch_sta w ch = SL_QUED ch
     \<or> bpmp_ch_sta w ch = MA_FREE ch \<or> bpmp_ch_sta w ch = MA_ACKD ch"
proof -
  consider "drop_bit (ch * 2) w AND 3 = 0" | "drop_bit (ch * 2) w AND 3 = 1"
    | "drop_bit (ch * 2) w AND 3 = 2" | "drop_bit (ch * 2) w AND 3 = 3"
    using two_bits_cases [of "drop_bit (ch * 2) w"] by blast
  then show ?thesis
  proof cases
    case 1 then show ?thesis by (simp only: ch_sta_shift SL_SIGL_def) simp
  next
    case 2 then show ?thesis by (simp only: ch_sta_shift SL_QUED_def) simp
  next
    case 3 then show ?thesis by (simp only: ch_sta_shift MA_FREE_def) simp
  next
    case 4 then show ?thesis by (simp only: ch_sta_shift MA_ACKD_def) simp
  qed
qed

lemma ch_sta_signal_slave: "bpmp_ch_sta (bpmp_signal_slave ch w) ch = SL_SIGL ch"
  apply (simp only: bpmp_ch_sta_def bpmp_signal_slave_def raw_readl_def raw_writel_def
      STA_OFFSET_def SET_OFFSET_def CLR_OFFSET_def SL_SIGL_def)
  apply (simp add: and.assoc)
  done

lemma ch_sta_set_ackd: "bpmp_ch_sta (raw_writel (MA_ACKD ch) SET_OFFSET w) ch = MA_ACKD ch"
  apply (simp only: bpmp_ch_sta_def raw_readl_def raw_writel_def
      STA_OFFSET_def SET_OFFSET_def CLR_OFFSET_def MA_ACKD_def CH_MASK_def)
  apply simp
  done

lemma ackd_xor_free: "MA_ACKD ch XOR MA_FREE ch = SL_QUED ch"
  by (simp add: MA_ACKD_def MA_FREE_def SL_QUED_def flip: push_bit_xor)

lemma clr_qued_ackd: "MA_ACKD ch AND NOT (SL_QUED ch) = MA_FREE ch"
  by (rule bit_eqI) (auto simp add: MA_ACKD_def SL_QUED_def MA_FREE_def bit_simps three_mask)

lemma clr_qued_free: "MA_FREE ch AND NOT (SL_QUED ch) = MA_FREE ch"
  by (rule bit_eqI) (auto simp add: SL_QUED_def MA_FREE_def bit_simps)

lemma ch_sta_clr:
  "bpmp_ch_sta (raw_writel v CLR_OFFSET w) ch = bpmp_ch_sta w ch AND NOT v"
  by (simp add: bpmp_ch_sta_def raw_readl_def raw_writel_def
      STA_OFFSET_def SET_OFFSET_def CLR_OFFSET_def and.assoc and.commute and.left_commute)

lemma ch_sta_set:
  "bpmp_ch_sta (raw_writel v SET_OFFSET w) ch = bpmp_ch_sta w ch OR (v AND CH_MASK ch)"
  by (simp add: bpmp_ch_sta_def raw_readl_def raw_writel_def
      STA_OFFSET_def SET_OFFSET_def CLR_OFFSET_def bit.conj_disj_distrib2)

lemma masks_disjoint:
  "ch \<noteq> ch' \<Longrightarrow> push_bit (ch * 2) (a AND mask 2) AND push_bit (ch' * 2) (mask 2 :: u32) = 0"
  by (rule bit_eqI) (auto simp add: bit_simps)

lemma pattern_other:
  assumes "ch' \<noteq> ch"
  shows "SL_QUED ch AND CH_MASK ch' = 0" and "MA_ACKD ch AND CH_MASK ch' = 0"
    and "CH_MASK ch AND CH_MASK ch' = 0"
  using masks_disjoint [of ch ch' 1] masks_disjoint [of ch ch' 3] assms
  by (simp_all add: SL_QUED_def MA_ACKD_def CH_MASK_def flip: three_mask)


lemma and_not_disjoint:
  fixes x v m :: u32
  assumes "v AND m = 0"
  shows "(x AND m) AND NOT v = x AND m"
proof (rule bit_eqI)
  fix n
  from assms have "\<not> (bit v n \<and> bit m n)"
    by (metis bit_and_iff bit_0_eq bot_apply bot_bool_def)
  then show "bit ((x AND m) AND NOT v) n = bit (x AND m) n"
    using bit_imp_le_length [of x n] by (auto simp add: bit_simps)
qed

lemma ch_sta_free_master:
  "bpmp_ch_sta (bpmp_free_master ch w) ch = bpmp_ch_sta w ch AND NOT (SL_QUED ch)"
  by (simp add: bpmp_free_master_def ackd_xor_free ch_sta_clr)

lemma ch_sta_ack_master:
  "bpmp_ch_sta (bpmp_ack_master h ch fl w) ch =
     (if fl AND DO_ACK h \<noteq> 0 then MA_ACKD ch else MA_FREE ch)"
  by (simp add: bpmp_ack_master_def Let_def ackd_xor_free ch_sta_clr ch_sta_set_ackd clr_qued_ackd)

lemma ch_sta_signal_slave_other:
  "ch' \<noteq> ch \<Longrightarrow> bpmp_ch_sta (bpmp_signal_slave ch w) ch' = bpmp_ch_sta w ch'"
  unfolding bpmp_signal_slave_def ch_sta_clr
  unfolding bpmp_ch_sta_def by (rule and_not_disjoint) (rule pattern_other)

lemma ch_sta_free_master_other:
  "ch' \<noteq> ch \<Longrightarrow> bpmp_ch_sta (bpmp_free_master ch w) ch' = bpmp_ch_sta w ch'"
  unfolding bpmp_free_master_def ackd_xor_free ch_sta_clr
  unfolding bpmp_ch_sta_def by (rule and_not_disjoint) (rule pattern_other)

lemma ch_sta_set_ackd_other:
  "ch' \<noteq> ch \<Longrightarrow> bpmp_ch_sta (raw_writel (MA_ACKD ch) SET_OFFSET w) ch' = bpmp_ch_sta w ch'"
  by (simp add: ch_sta_set pattern_other)

lemma ch_sta_ack_master_other:
  assumes "ch' \<noteq> ch"
  shows "bpmp_ch_sta (bpmp_ack_master h ch fl w) ch' = bpmp_ch_sta w ch'"
proof -
  have "bpmp_ch_sta (raw_writel (SL_QUED ch) CLR_OFFSET (raw_writel (MA_ACKD ch) SET_OFFSET w)) ch'
      = bpmp_ch_sta (raw_writel (MA_ACKD ch) SET_OFFSET w) ch'"
    unfolding ch_sta_clr unfolding bpmp_ch_sta_def
    by (rule and_not_disjoint) (rule pattern_other [OF assms])
  with assms show ?thesis
    by (simp add: bpmp_ack_master_def Let_def ackd_xor_free ch_sta_set_ackd_other)
qed

lemma ch_sta_token_step_other:
  "token_op_ch x \<noteq> ch \<Longrightarrow> bpmp_ch_sta (token_step h x w) ch = bpmp_ch_sta w ch"
  by (cases x)
    (simp_all add: ch_sta_signal_slave_other ch_sta_ack_master_other ch_sta_free_master_other)

lemma ch_sta_fold_other:
  "\<forall>x\<in>set xs. token_op_ch x \<noteq> ch \<Longrightarrow>
     bpmp_ch_sta (fold (token_step h) xs w) ch = bpmp_ch_sta w ch"
  by (induction xs arbitrary: w) (simp_all add: ch_sta_token_step_other)

lemma ch_sta_bits:
  assumes "bit w' (ch * 2) = bit w (ch * 2)" and "bit w' (ch * 2 + 1) = bit w (ch * 2 + 1)"
  shows "bpmp_ch_sta w' ch = bpmp_ch_sta w ch"
proof -
  have "w' AND push_bit (ch * 2) (mask 2) = w AND push_bit (ch * 2) (mask 2)"
  proof (rule bit_eqI)
    fix n
    have "n - ch * 2 < 2 \<and> ch * 2 \<le> n \<Longrightarrow> n = ch * 2 \<or> n = ch * 2 + 1" by arith
    with assms show "bit (w' AND push_bit (ch * 2) (mask 2)) n = bit (w AND push_bit (ch * 2) (mask 2)) n"
      by (auto simp add: bit_simps)
  qed
  then show ?thesis
    by (simp add: bpmp_ch_sta_def raw_readl_def CH_MASK_def three_mask)
qed

lemmas token_defs =
  bpmp_ch_sta_def bpmp_master_free_def bpmp_slave_signalled_def bpmp_master_acked_def
  bpmp_signal_slave_def bpmp_ack_master_def bpmp_free_master_def raw_readl_def raw_writel_def
  STA_OFFSET_def SET_OFFSET_def CLR_OFFSET_def
  CH_MASK_def SL_SIGL_def SL_QUED_def MA_FREE_def MA_ACKD_def

subsection \<open>C1: the issue-request transition\<close>

text \<open>
  C1 says that \<open>bpmp_signal_slave\<close>, on a channel whose slice is \<open>MA_FREE\<close>, leaves the
  slice at \<open>SL_QUED\<close> (01). The driver writes the whole mask of the channel to the clear
  register, so both bits go: the slice is left at \<open>SL_SIGL\<close> (00), which differs from
  \<open>SL_QUED\<close>.
\<close>

theorem signal_slave_leaves_signalled:
  assumes "ch < 16" and "bpmp_master_free w ch"
  shows "bpmp_ch_sta (bpmp_signal_slave ch w) ch = SL_SIGL ch
    \<and> bpmp_ch_sta (bpmp_signal_slave ch w) ch \<noteq> SL_QUED ch"
  using pattern_distinct(1) [OF assms(1)] by (simp add: ch_sta_signal_slave)

text \<open>Channel 4 of a status word in which the twelve channels are all free.\<close>

theorem signal_slave_leaves_signalled_witness:
  "(4 :: nat) < 16 \<and> bpmp_master_free 0xAAAAAA 4
    \<and> bpmp_ch_sta (bpmp_signal_slave 4 0xAAAAAA) 4 = SL_SIGL 4
    \<and> bpmp_ch_sta (bpmp_signal_slave 4 0xAAAAAA) 4 \<noteq> SL_QUED 4"
proof -
  have n: "(4 :: nat) < 16" by simp
  have f: "bpmp_master_free 0xAAAAAA 4" by (simp add: token_defs)
  from n f signal_slave_leaves_signalled [OF n f] show ?thesis by blast
qed

text \<open>
  C1 as stated fails on channel 0 of the status word 2: the slice is \<open>MA_FREE\<close> before
  the step and is not \<open>SL_QUED\<close> after it.
\<close>

theorem signal_slave_not_queued:
  "bpmp_master_free 2 0 \<and> bpmp_ch_sta (bpmp_signal_slave 0 2) 0 \<noteq> SL_QUED 0"
  by (simp add: token_defs)

subsection \<open>C2: the round trip of a token\<close>

text \<open>
  C2: from a status word \<open>w\<close> in which the slice of \<open>ch\<close> is \<open>MA_FREE\<close>, let the driver
  signal the slave, let the peer leave a word \<open>w'\<close> in which the slice of \<open>ch\<close> is
  \<open>SL_SIGL\<close> and the other slices are as the driver left them, then let the driver
  acknowledge (with any flags) and free. The slice of \<open>ch\<close> is \<open>MA_FREE\<close> again, as it
  was before, and the slice of every other channel is what it was in \<open>w\<close>.
\<close>

theorem token_round_trip:
  assumes "ch < 16"
    and "bpmp_master_free w ch"
    and "bpmp_slave_signalled w' ch"
    and "\<forall>ch'. ch' \<noteq> ch \<longrightarrow> bpmp_ch_sta w' ch' = bpmp_ch_sta (bpmp_signal_slave ch w) ch'"
  shows "bpmp_ch_sta (bpmp_free_master ch (bpmp_ack_master h ch fl w')) ch = MA_FREE ch
    \<and> bpmp_ch_sta (bpmp_free_master ch (bpmp_ack_master h ch fl w')) ch = bpmp_ch_sta w ch
    \<and> (\<forall>ch'. ch' \<noteq> ch \<longrightarrow>
          bpmp_ch_sta (bpmp_free_master ch (bpmp_ack_master h ch fl w')) ch' = bpmp_ch_sta w ch')"
proof -
  have "bpmp_ch_sta (bpmp_free_master ch (bpmp_ack_master h ch fl w')) ch = MA_FREE ch"
    by (simp add: ch_sta_free_master ch_sta_ack_master clr_qued_ackd clr_qued_free)
  moreover from assms(2) have "bpmp_ch_sta w ch = MA_FREE ch"
    by (simp add: bpmp_master_free_def)
  moreover have "bpmp_ch_sta (bpmp_free_master ch (bpmp_ack_master h ch fl w')) ch' = bpmp_ch_sta w ch'"
    if "ch' \<noteq> ch" for ch'
    using that assms(4)
    by (simp add: ch_sta_free_master_other ch_sta_ack_master_other ch_sta_signal_slave_other)
  ultimately show ?thesis by simp
qed

text \<open>Channel 4 with all twelve channels free; channel 5 is one of the others.\<close>

theorem token_round_trip_witness:
  "bpmp_master_free 0xAAAAAA 4
    \<and> bpmp_slave_signalled (bpmp_signal_slave 4 0xAAAAAA) 4
    \<and> bpmp_ch_sta (bpmp_free_master 4 (bpmp_ack_master t210_h 4 0 (bpmp_signal_slave 4 0xAAAAAA))) 4
      = MA_FREE 4
    \<and> bpmp_ch_sta (bpmp_free_master 4 (bpmp_ack_master t210_h 4 0 (bpmp_signal_slave 4 0xAAAAAA))) 5
      = bpmp_ch_sta 0xAAAAAA 5"
proof -
  have f: "bpmp_master_free 0xAAAAAA 4" by (simp add: token_defs)
  have s: "bpmp_slave_signalled (bpmp_signal_slave 4 0xAAAAAA) 4" by (simp add: token_defs)
  have n: "(4 :: nat) < 16" by simp
  have "(5 :: nat) \<noteq> 4" by simp
  with f s token_round_trip [of 4 "0xAAAAAA" "bpmp_signal_slave 4 0xAAAAAA" t210_h 0, OF n f s]
  show ?thesis by blast
qed

subsection \<open>C3: immediate and deferred acknowledge\<close>

text \<open>
  C3: on a channel the peer has put in the signalled state, \<open>bpmp_ack_master\<close> with the
  \<open>DO_ACK\<close> bit clear in the flags (the immediate policy) leaves the slice at \<open>MA_FREE\<close>
  in that one step. With the bit set (the deferred policy) it leaves the slice at
  \<open>MA_ACKD\<close>, not \<open>MA_FREE\<close>; the slice stays \<open>MA_ACKD\<close> through any token operations of
  the driver on other channels, and \<open>bpmp_free_master\<close> on the channel then moves it to
  \<open>MA_FREE\<close>.
\<close>

theorem ack_policy:
  assumes "ch < 16" and "bpmp_slave_signalled w ch"
  shows "(fl AND DO_ACK h = 0 \<longrightarrow>
            bpmp_master_free (bpmp_ack_master h ch fl w) ch
          \<and> \<not> bpmp_master_acked (bpmp_ack_master h ch fl w) ch)
    \<and> (fl AND DO_ACK h \<noteq> 0 \<longrightarrow>
            bpmp_master_acked (bpmp_ack_master h ch fl w) ch
          \<and> \<not> bpmp_master_free (bpmp_ack_master h ch fl w) ch
          \<and> (\<forall>xs. (\<forall>x\<in>set xs. token_op_ch x \<noteq> ch) \<longrightarrow>
                bpmp_master_acked (fold (token_step h) xs (bpmp_ack_master h ch fl w)) ch
              \<and> bpmp_master_free
                    (bpmp_free_master ch (fold (token_step h) xs (bpmp_ack_master h ch fl w))) ch))"
proof -
  note d = pattern_distinct(6) [OF assms(1)]
  have imm: "bpmp_master_free (bpmp_ack_master h ch fl w) ch
      \<and> \<not> bpmp_master_acked (bpmp_ack_master h ch fl w) ch" if "fl AND DO_ACK h = 0"
    using that d by (simp add: bpmp_master_free_def bpmp_master_acked_def ch_sta_ack_master)
  have dfr: "bpmp_master_acked (bpmp_ack_master h ch fl w) ch
      \<and> \<not> bpmp_master_free (bpmp_ack_master h ch fl w) ch" if "fl AND DO_ACK h \<noteq> 0"
    using that d by (simp add: bpmp_master_free_def bpmp_master_acked_def ch_sta_ack_master)
  have stay: "bpmp_master_acked (fold (token_step h) xs (bpmp_ack_master h ch fl w)) ch
      \<and> bpmp_master_free
          (bpmp_free_master ch (fold (token_step h) xs (bpmp_ack_master h ch fl w))) ch"
    if "fl AND DO_ACK h \<noteq> 0" and "\<forall>x\<in>set xs. token_op_ch x \<noteq> ch" for xs
    using that
    by (simp add: bpmp_master_free_def bpmp_master_acked_def ch_sta_free_master
        ch_sta_fold_other ch_sta_ack_master clr_qued_ackd)
  from imm dfr stay show ?thesis by blast
qed

text \<open>
  The inbound channel 8, signalled, with the outbound channels 0 to 3 free; flags 0 for
  the immediate and 1 for the deferred policy.
\<close>

theorem ack_policy_witness:
  "bpmp_slave_signalled 0xAA 8
    \<and> bpmp_master_free (bpmp_ack_master t210_h 8 0 0xAA) 8
    \<and> bpmp_master_acked (bpmp_ack_master t210_h 8 1 0xAA) 8
    \<and> bpmp_master_acked
        (fold (token_step t210_h) [Signal_slave 0, Free_master 9] (bpmp_ack_master t210_h 8 1 0xAA)) 8
    \<and> bpmp_master_free (bpmp_free_master 8
        (fold (token_step t210_h) [Signal_slave 0, Free_master 9] (bpmp_ack_master t210_h 8 1 0xAA))) 8"
proof -
  have n: "(8 :: nat) < 16" by simp
  have s: "bpmp_slave_signalled 0xAA 8" by (simp add: token_defs)
  have i: "(0 :: u32) AND DO_ACK t210_h = 0" by (simp add: t210_h_def)
  have d: "(1 :: u32) AND DO_ACK t210_h \<noteq> 0" by (simp add: t210_h_def)
  have o: "\<forall>x\<in>set [Signal_slave 0, Free_master 9]. token_op_ch x \<noteq> 8" by simp
  from s i ack_policy [OF n s, of 0 t210_h] d o ack_policy [OF n s, of 1 t210_h]
  show ?thesis by blast
qed

subsection \<open>C4: decoding a token\<close>

text \<open>
  C4: the slice of a channel matches exactly one of the four patterns \<open>SL_SIGL\<close>,
  \<open>SL_QUED\<close>, \<open>MA_FREE\<close> and \<open>MA_ACKD\<close>; at most one of the predicates
  \<open>bpmp_master_free\<close>, \<open>bpmp_slave_signalled\<close> and \<open>bpmp_master_acked\<close> holds of a channel;
  and each of them is a function of the status word that depends only on the two bits
  of the channel: two status words that agree on these bits agree on the predicates.
\<close>

theorem token_decode:
  assumes "ch < 16"
  shows "length (filter (\<lambda>p. bpmp_ch_sta w ch = p ch) [SL_SIGL, SL_QUED, MA_FREE, MA_ACKD]) = 1
    \<and> length (filter (\<lambda>b. b)
          [bpmp_master_free w ch, bpmp_slave_signalled w ch, bpmp_master_acked w ch]) \<le> 1
    \<and> (bit w' (ch * 2) = bit w (ch * 2) \<and> bit w' (ch * 2 + 1) = bit w (ch * 2 + 1) \<longrightarrow>
          bpmp_master_free w' ch = bpmp_master_free w ch
        \<and> bpmp_slave_signalled w' ch = bpmp_slave_signalled w ch
        \<and> bpmp_master_acked w' ch = bpmp_master_acked w ch)"
proof -
  note d = pattern_distinct [OF assms]
  have one: "length (filter (\<lambda>p. bpmp_ch_sta w ch = p ch) [SL_SIGL, SL_QUED, MA_FREE, MA_ACKD]) = 1"
    using ch_sta_cases [of w ch] d by auto
  have most: "length (filter (\<lambda>b. b)
      [bpmp_master_free w ch, bpmp_slave_signalled w ch, bpmp_master_acked w ch]) \<le> 1"
    using d by (auto simp add: bpmp_master_free_def bpmp_slave_signalled_def bpmp_master_acked_def)
  have dep: "bpmp_master_free w' ch = bpmp_master_free w ch
      \<and> bpmp_slave_signalled w' ch = bpmp_slave_signalled w ch
      \<and> bpmp_master_acked w' ch = bpmp_master_acked w ch"
    if "bit w' (ch * 2) = bit w (ch * 2) \<and> bit w' (ch * 2 + 1) = bit w (ch * 2 + 1)"
    using ch_sta_bits [of w' ch w] that
    by (simp add: bpmp_master_free_def bpmp_slave_signalled_def bpmp_master_acked_def)
  from one most dep show ?thesis by blast
qed

text \<open>Channel 11, free in both status words, which differ in other channels.\<close>

theorem token_decode_witness:
  "length (filter (\<lambda>p. bpmp_ch_sta 0xAAAAAA 11 = p 11) [SL_SIGL, SL_QUED, MA_FREE, MA_ACKD]) = 1
    \<and> length (filter (\<lambda>b. b) [bpmp_master_free 0xAAAAAA 11, bpmp_slave_signalled 0xAAAAAA 11,
          bpmp_master_acked 0xAAAAAA 11]) \<le> 1
    \<and> bit (0x800000 :: u32) (11 * 2) = bit (0xAAAAAA :: u32) (11 * 2)
    \<and> bit (0x800000 :: u32) (11 * 2 + 1) = bit (0xAAAAAA :: u32) (11 * 2 + 1)
    \<and> bpmp_master_free 0x800000 11 = bpmp_master_free 0xAAAAAA 11"
proof -
  have n: "(11 :: nat) < 16" by simp
  have b: "bit (0x800000 :: u32) (11 * 2) = bit (0xAAAAAA :: u32) (11 * 2)
    \<and> bit (0x800000 :: u32) (11 * 2 + 1) = bit (0xAAAAAA :: u32) (11 * 2 + 1)"
    by simp
  from b token_decode [OF n, of "0xAAAAAA" "0x800000"] show ?thesis by blast
qed

subsection \<open>C5: the set of the acknowledge step\<close>

text \<open>
  C5: the write of \<open>MA_ACKD ch\<close> to the set register leaves the slice of \<open>ch\<close> at
  \<open>MA_ACKD\<close> whatever it was before. With \<open>DO_ACK\<close> in the flags this write is all that
  \<open>bpmp_ack_master\<close> does.
\<close>

theorem ack_set_absorbing:
  assumes "ch < 16"
  shows "bpmp_ch_sta (raw_writel (MA_ACKD ch) SET_OFFSET w) ch = MA_ACKD ch
    \<and> bpmp_ch_sta (raw_writel (MA_ACKD ch) SET_OFFSET w) ch \<noteq> MA_FREE ch
    \<and> (fl AND DO_ACK h \<noteq> 0 \<longrightarrow>
          bpmp_ack_master h ch fl w = raw_writel (MA_ACKD ch) SET_OFFSET w
        \<and> bpmp_master_acked (bpmp_ack_master h ch fl w) ch)"
  using pattern_distinct(6) [OF assms]
  by (simp add: ch_sta_set_ackd bpmp_master_acked_def bpmp_ack_master_def Let_def)

text \<open>Channel 8 with the slice at \<open>SL_QUED\<close> before the write.\<close>

theorem ack_set_absorbing_witness:
  "bpmp_ch_sta 0x10000 8 = SL_QUED 8
    \<and> bpmp_ch_sta (raw_writel (MA_ACKD 8) SET_OFFSET 0x10000) 8 = MA_ACKD 8
    \<and> bpmp_master_acked (bpmp_ack_master t210_h 8 1 0x10000) 8"
proof -
  have n: "(8 :: nat) < 16" by simp
  have q: "bpmp_ch_sta 0x10000 8 = SL_QUED 8" by (simp add: token_defs)
  have d: "(1 :: u32) AND DO_ACK t210_h \<noteq> 0" by (simp add: t210_h_def)
  from q d ack_set_absorbing [OF n, of "0x10000" 1 t210_h] show ?thesis by blast
qed

section \<open>The deferrable channels\<close>

subsection \<open>C10: the index maps\<close>

text \<open>
  C10: \<open>bpmp_thread_ch_index\<close> undoes \<open>bpmp_thread_ch\<close> on the indices 0 to 3,
  \<open>bpmp_thread_ch\<close> undoes \<open>bpmp_thread_ch_index\<close> on the channels 4 to 7, and
  \<open>bpmp_thread_ch_index\<close> is \<open>- 1\<close> on every channel outside 4 to 7.
\<close>

theorem thread_ch_inverse:
  "(0 \<le> i \<and> i \<le> 3 \<longrightarrow> bpmp_thread_ch_index (bpmp_thread_ch i) = i)
    \<and> (4 \<le> ch \<and> ch \<le> 7 \<longrightarrow> bpmp_thread_ch (bpmp_thread_ch_index ch) = ch)
    \<and> (ch < 4 \<or> 7 < ch \<longrightarrow> bpmp_thread_ch_index ch = - 1)"
  by (simp add: bpmp_thread_ch_index_def bpmp_thread_ch_def CPU0_OB_CH1_def CPU3_OB_CH1_def)

text \<open>Index 2, channel 5, and the channels 9 and \<open>- 3\<close> outside the range.\<close>

theorem thread_ch_inverse_witness:
  "bpmp_thread_ch_index (bpmp_thread_ch 2) = 2
    \<and> bpmp_thread_ch (bpmp_thread_ch_index 5) = 5
    \<and> bpmp_thread_ch_index 9 = - 1
    \<and> bpmp_thread_ch_index (- 3) = - 1"
proof -
  have a: "(0 :: int) \<le> 2 \<and> (2 :: int) \<le> 3" by simp
  have b: "(4 :: int) \<le> 5 \<and> (5 :: int) \<le> 7" by simp
  have c: "(9 :: int) < 4 \<or> (7 :: int) < 9" by simp
  have d: "(- 3 :: int) < 4 \<or> (7 :: int) < - 3" by simp
  from a b c d thread_ch_inverse [of 2 5] thread_ch_inverse [of 2 9] thread_ch_inverse [of 2 "- 3"]
  show ?thesis by blast
qed

section \<open>Interrupt initialization\<close>

declare bpmp_init_irq_from.simps [simp del]

lemma init_irq_from_fail:
  assumes "i \<le> k" and "k < 4"
    and "\<forall>j. i \<le> j \<and> j < k \<longrightarrow> reg j (PER_CPU_IB_CH (int j)) = 0"
    and "reg k (PER_CPU_IB_CH (int k)) \<noteq> 0"
  shows "bpmp_init_irq_from reg i calls =
    (reg k (PER_CPU_IB_CH (int k)), calls @ map (\<lambda>j. (j, PER_CPU_IB_CH (int j))) [i..<Suc k])"
  using assms
proof (induction reg i calls rule: bpmp_init_irq_from.induct)
  case (1 reg i calls)
  show ?case
  proof (cases "i = k")
    case True
    with "1.prems" show ?thesis
      by (subst bpmp_init_irq_from.simps) (simp add: Let_def)
  next
    case False
    with "1.prems" have ik: "i < k" and i4: "i < 4" and z: "reg i (PER_CPU_IB_CH (int i)) = 0"
      by auto
    from ik have "Suc i \<le> k" by simp
    moreover from "1.prems" have "\<forall>j. Suc i \<le> j \<and> j < k \<longrightarrow> reg j (PER_CPU_IB_CH (int j)) = 0"
      by auto
    ultimately have "bpmp_init_irq_from reg (Suc i) (calls @ [(i, PER_CPU_IB_CH (int i))]) =
      (reg k (PER_CPU_IB_CH (int k)),
       (calls @ [(i, PER_CPU_IB_CH (int i))]) @ map (\<lambda>j. (j, PER_CPU_IB_CH (int j))) [Suc i..<Suc k])"
      using "1.IH" [OF i4 refl refl refl] z "1.prems"(2,4) by simp
    with ik i4 z show ?thesis
      by (subst bpmp_init_irq_from.simps) (simp add: Let_def upt_conv_Cons)
  qed
qed

lemma init_irq_from_ok:
  assumes "\<forall>j. i \<le> j \<and> j < 4 \<longrightarrow> reg j (PER_CPU_IB_CH (int j)) = 0"
  shows "bpmp_init_irq_from reg i calls =
    (0, calls @ map (\<lambda>j. (j, PER_CPU_IB_CH (int j))) [i..<4])"
  using assms
proof (induction reg i calls rule: bpmp_init_irq_from.induct)
  case (1 reg i calls)
  show ?case
  proof (cases "i < 4")
    case True
    with "1.prems" have z: "reg i (PER_CPU_IB_CH (int i)) = 0" by simp
    from "1.prems" have "\<forall>j. Suc i \<le> j \<and> j < 4 \<longrightarrow> reg j (PER_CPU_IB_CH (int j)) = 0"
      by auto
    with "1.IH" [OF True refl refl refl] z
    have "bpmp_init_irq_from reg (Suc i) (calls @ [(i, PER_CPU_IB_CH (int i))]) =
      (0, (calls @ [(i, PER_CPU_IB_CH (int i))]) @ map (\<lambda>j. (j, PER_CPU_IB_CH (int j))) [Suc i..<4])"
      by simp
    with True z show ?thesis
      by (subst bpmp_init_irq_from.simps) (simp add: Let_def upt_conv_Cons)
  next
    case False
    then show ?thesis
      by (subst bpmp_init_irq_from.simps) simp
  qed
qed

subsection \<open>C9: registration of the doorbell handlers\<close>

text \<open>
  C9: if the registrations for the CPUs before \<open>i\<close> succeed and the one for CPU \<open>i\<close>
  returns \<open>r \<noteq> 0\<close>, then \<open>bpmp_init_irq\<close> returns \<open>r\<close>, having called the registration
  for the CPUs 0 to \<open>i\<close> and for no CPU after \<open>i\<close>. If all four succeed it returns 0,
  having registered for each CPU \<open>k\<close> the handler with the context \<open>8 + k\<close>, which is the
  channel the handler dispatches.
\<close>

theorem init_irq_result:
  "(i < 4 \<and> (\<forall>k<i. reg k (PER_CPU_IB_CH (int k)) = 0)
        \<and> reg i (PER_CPU_IB_CH (int i)) = r \<and> r \<noteq> 0 \<longrightarrow>
      fst (bpmp_init_irq reg) = r
      \<and> snd (bpmp_init_irq reg) = map (\<lambda>k. (k, 8 + int k)) [0..<Suc i]
      \<and> (\<forall>j>i. \<forall>d. (j, d) \<notin> set (snd (bpmp_init_irq reg))))
    \<and> ((\<forall>k<4. reg k (PER_CPU_IB_CH (int k)) = 0) \<longrightarrow>
      bpmp_init_irq reg = (0, [(0, 8), (1, 9), (2, 10), (3, 11)])
      \<and> (\<forall>k<4. (k, 8 + int k) \<in> set (snd (bpmp_init_irq reg))
            \<and> bpmp_doorbell_handler (8 + int k) = 8 + int k))"
proof -
  have ch: "PER_CPU_IB_CH (int k) = 8 + int k" for k
    by (simp add: PER_CPU_IB_CH_def CPU0_IB_CH_def)
  have fail: "fst (bpmp_init_irq reg) = r
      \<and> snd (bpmp_init_irq reg) = map (\<lambda>k. (k, 8 + int k)) [0..<Suc i]
      \<and> (\<forall>j>i. \<forall>d. (j, d) \<notin> set (snd (bpmp_init_irq reg)))"
    if "i < 4" and "\<forall>k<i. reg k (PER_CPU_IB_CH (int k)) = 0"
      and "reg i (PER_CPU_IB_CH (int i)) = r" and "r \<noteq> 0"
  proof -
    from that have "bpmp_init_irq reg = (r, map (\<lambda>k. (k, 8 + int k)) [0..<Suc i])"
      unfolding bpmp_init_irq_def using init_irq_from_fail [of 0 i reg "[]"] by (simp add: ch)
    then show ?thesis by auto
  qed
  have four: "[0..<4] = [0, 1, 2, Suc 2]"
    by (simp add: upt_conv_Cons)
  have ok: "bpmp_init_irq reg = (0, [(0, 8), (1, 9), (2, 10), (3, 11)])
      \<and> (\<forall>k<4. (k, 8 + int k) \<in> set (snd (bpmp_init_irq reg))
            \<and> bpmp_doorbell_handler (8 + int k) = 8 + int k)"
    if "\<forall>k<4. reg k (PER_CPU_IB_CH (int k)) = 0"
  proof -
    from that have e: "bpmp_init_irq reg = (0, [(0, 8), (1, 9), (2, 10), (3, 11)])"
      unfolding bpmp_init_irq_def using init_irq_from_ok [of 0 reg "[]"] by (simp add: ch four)
    have "k = 0 \<or> k = 1 \<or> k = 2 \<or> k = 3" if "k < 4" for k :: nat
      using that by arith
    then have "\<forall>k<4. (k, 8 + int k) \<in> set [(0, 8), (1, 9), (2, 10), (3 :: nat, 11 :: int)]"
      by auto
    with e show ?thesis by (simp add: bpmp_doorbell_handler_def)
  qed
  from fail ok show ?thesis by blast
qed

text \<open>A doorbell driver that refuses CPU 2 with \<open>- 16\<close>, and one that accepts all.\<close>

theorem init_irq_result_witness:
  "bpmp_init_irq (\<lambda>cpu d. if cpu = 2 then - 16 else 0) = (- 16, [(0, 8), (1, 9), (2, 10)])
    \<and> bpmp_init_irq (\<lambda>cpu d. 0) = (0, [(0, 8), (1, 9), (2, 10), (3, 11)])"
proof -
  let ?reg = "\<lambda>cpu d. if cpu = 2 then - 16 else (0 :: int)"
  have a: "(2 :: nat) < 4 \<and> (\<forall>k<2. ?reg k (PER_CPU_IB_CH (int k)) = 0)
      \<and> ?reg 2 (PER_CPU_IB_CH (int 2)) = - 16 \<and> (- 16 :: int) \<noteq> 0"
    by simp
  have b: "\<forall>k<4. (\<lambda>cpu d. 0 :: int) k (PER_CPU_IB_CH (int k)) = 0" by simp
  have l: "map (\<lambda>k. (k, 8 + int k)) [0..<Suc 2] = [(0, 8), (1, 9), (2, 10)]"
    by (simp add: upt_conv_Cons)
  from a init_irq_result [of 2 ?reg "- 16"]
  have "fst (bpmp_init_irq ?reg) = - 16
      \<and> snd (bpmp_init_irq ?reg) = map (\<lambda>k. (k, 8 + int k)) [0..<Suc 2]"
    by blast
  with l have "bpmp_init_irq ?reg = (- 16, [(0, 8), (1, 9), (2, 10)])"
    by (simp add: prod_eq_iff)
  moreover from b init_irq_result [of 0 "\<lambda>cpu d. 0" 0]
  have "bpmp_init_irq (\<lambda>cpu d. 0) = (0, [(0, 8), (1, 9), (2, 10), (3, 11)])"
    by blast
  ultimately show ?thesis by simp
qed

section \<open>Returning data\<close>

text \<open>A reply that fits is written, acknowledged and announced by the doorbell.\<close>

lemma return_data_example:
  "map_option (\<lambda>s. (doorbells s, bpmp_master_free (arb_sema_sta s) 8,
        map_option code (mem s 0x1400), map_option (take 5 \<circ> data) (mem s 0x1400),
        map_option flags (mem s 0x1400), warnings s))
      (bpmp_return_data t210_h 8 7 [1, 2, 3, 4] 4 example_state)
    = Some ([4], True, Some 7, Some [1, 2, 3, 4, 0], Some 2, 0)"
  by (simp add: bpmp_return_data_def example_state_def example_area_def t210_h_def Let_def
      bpmp_ring_doorbell_def CPU_OB_DOORBELL_def token_defs)

subsection \<open>C6: a reply that is too large\<close>

text \<open>
  C6: with a size above \<open>MSG_DATA_MIN_SZ\<close>, \<open>bpmp_return_data\<close> returns the state it was
  given but for the warning: memory (so the code and payload of every channel area),
  the status word, the doorbell and the channel table are unchanged.
\<close>

theorem return_data_oversize:
  assumes "sz > MSG_DATA_MIN_SZ h"
  shows "bpmp_return_data h ch c dat sz st = Some (st\<lparr>warnings := Suc (warnings st)\<rparr>)
    \<and> (\<exists>st'. bpmp_return_data h ch c dat sz st = Some st'
          \<and> mem st' = mem st \<and> arb_sema_sta st' = arb_sema_sta st
          \<and> doorbells st' = doorbells st \<and> channel_area st' = channel_area st
          \<and> warnings st' = Suc (warnings st))"
  using assms by (simp add: bpmp_return_data_def)

text \<open>A reply of 121 bytes on channel 8 of the example state.\<close>

theorem return_data_oversize_witness:
  "MSG_DATA_MIN_SZ t210_h < 121
    \<and> bpmp_return_data t210_h 8 7 (replicate 121 1) 121 example_state
      = Some (example_state\<lparr>warnings := Suc (warnings example_state)\<rparr>)"
proof -
  have a: "MSG_DATA_MIN_SZ t210_h < 121" by (simp add: t210_h_def)
  from a return_data_oversize [OF a, of 8 7 "replicate 121 1" example_state]
  show ?thesis by blast
qed

section \<open>The handshake\<close>

declare channel_hwaddr_from.simps [simp del]

lemma hwaddr_from_fail:
  assumes "i \<le> k" and "k < NR_CHANNELS h"
    and "\<forall>j. i \<le> j \<and> j < k \<longrightarrow> fst (bpmp_channel_area pf j) \<noteq> 0"
    and "fst (bpmp_channel_area pf k) = 0"
  shows "channel_hwaddr_from h pf i =
    (None, concat (map (\<lambda>j. snd (bpmp_channel_area pf j)) [i..<Suc k]))"
  using assms
proof (induction h pf i rule: channel_hwaddr_from.induct)
  case (1 h pf i)
  obtain a evs where ae: "bpmp_channel_area pf i = (a, evs)" by (cases "bpmp_channel_area pf i")
  show ?case
  proof (cases "i = k")
    case True
    with "1.prems" ae show ?thesis
      by (subst channel_hwaddr_from.simps) simp
  next
    case False
    with "1.prems" have ik: "i < k" and iN: "i < NR_CHANNELS h" and nz: "a \<noteq> 0"
      using ae by auto
    from ik have "Suc i \<le> k" by simp
    moreover from "1.prems" have "\<forall>j. Suc i \<le> j \<and> j < k \<longrightarrow> fst (bpmp_channel_area pf j) \<noteq> 0"
      by auto
    ultimately have "channel_hwaddr_from h pf (Suc i) =
      (None, concat (map (\<lambda>j. snd (bpmp_channel_area pf j)) [Suc i..<Suc k]))"
      using "1.IH" [OF iN ae [symmetric] nz] "1.prems"(2,4) by simp
    with ik iN nz ae show ?thesis
      by (subst channel_hwaddr_from.simps) (simp add: upt_conv_Cons)
  qed
qed

lemma hwaddr_from_ok:
  assumes "\<forall>j. i \<le> j \<and> j < NR_CHANNELS h \<longrightarrow> fst (bpmp_channel_area pf j) \<noteq> 0"
  shows "channel_hwaddr_from h pf i =
    (Some (map (\<lambda>j. fst (bpmp_channel_area pf j)) [i..<NR_CHANNELS h]),
     concat (map (\<lambda>j. snd (bpmp_channel_area pf j)) [i..<NR_CHANNELS h]))"
  using assms
proof (induction h pf i rule: channel_hwaddr_from.induct)
  case (1 h pf i)
  obtain a evs where ae: "bpmp_channel_area pf i = (a, evs)" by (cases "bpmp_channel_area pf i")
  show ?case
  proof (cases "i < NR_CHANNELS h")
    case True
    with "1.prems" ae have nz: "a \<noteq> 0" by auto
    from "1.prems" have "\<forall>j. Suc i \<le> j \<and> j < NR_CHANNELS h \<longrightarrow> fst (bpmp_channel_area pf j) \<noteq> 0"
      by auto
    with "1.IH" [OF True ae [symmetric] nz]
    have "channel_hwaddr_from h pf (Suc i) =
      (Some (map (\<lambda>j. fst (bpmp_channel_area pf j)) [Suc i..<NR_CHANNELS h]),
       concat (map (\<lambda>j. snd (bpmp_channel_area pf j)) [Suc i..<NR_CHANNELS h]))"
      by simp
    with True nz ae show ?thesis
      by (subst channel_hwaddr_from.simps) (simp add: upt_conv_Cons)
  next
    case False
    then show ?thesis
      by (subst channel_hwaddr_from.simps) simp
  qed
qed

lemma four_push: "(4 :: u32) = push_bit 2 1"
  by simp

lemma bit_small_nat:
  fixes j :: nat
  assumes "j < 2 ^ m" and "bit j n"
  shows "n < m"
proof (rule ccontr)
  assume "\<not> n < m"
  then have "(2 :: nat) ^ m \<le> 2 ^ n" by simp
  with assms(1) have "j < 2 ^ n" by (rule less_le_trans)
  then have "\<not> bit j n" by (simp add: bit_iff_odd)
  with assms(2) show False by simp
qed

lemma drop_trigger_word:
  assumes "j < 65536"
  shows "unat (drop_bit 16 (trigger_word j)) = j"
proof -
  have "drop_bit 16 (trigger_word j) = (word_of_nat j :: u32)"
    unfolding trigger_word_def TRIGGER_ID_SHIFT_def TRIGGER_CMD_GET_def four_push
  proof (rule bit_eqI)
    fix n
    have "n < 16" if "bit j n"
      using bit_small_nat [of j 16 n] assms that by simp
    then show "bit (drop_bit 16 (push_bit 16 (word_of_nat j :: u32) OR push_bit 2 1)) n
        = bit (word_of_nat j :: u32) n"
      by (auto simp add: bit_simps)
  qed
  then show ?thesis using assms by (simp add: unat_of_nat)
qed

lemma trigger_word_inj:
  assumes "j < 65536" and "k < 65536" and "trigger_word j = trigger_word k"
  shows "j = k"
proof -
  have "j = unat (drop_bit 16 (trigger_word j))"
    by (rule drop_trigger_word [OF assms(1), symmetric])
  also have "\<dots> = unat (drop_bit 16 (trigger_word k))"
    by (simp only: assms(3))
  also have "\<dots> = k"
    by (rule drop_trigger_word [OF assms(2)])
  finally show ?thesis .
qed

lemma channel_area_events:
  "snd (bpmp_channel_area pf k) = [Writel (trigger_word k) TRIGGER_OFFSET, Readl (RESULT_OFFSET k)]"
  by (simp add: bpmp_channel_area_def Let_def)

lemma connect_no_window:
  "of_iomap pf 0 = 0 \<or> of_iomap pf 1 = 0 \<Longrightarrow> fst (bpmp_connect h pf st) = - ENODEV"
  by (auto simp add: bpmp_connect_def Let_def)

lemma connect_no_liveness:
  "of_iomap pf 0 \<noteq> 0 \<Longrightarrow> of_iomap pf 1 \<noteq> 0 \<Longrightarrow> arb_sema_sta st = 0 \<Longrightarrow>
     fst (bpmp_connect h pf st) = - ENODEV"
  by (simp add: bpmp_connect_def Let_def raw_readl_def)

lemma connect_first_zero:
  assumes "of_iomap pf 0 \<noteq> 0" and "of_iomap pf 1 \<noteq> 0" and "arb_sema_sta st \<noteq> 0"
    and "m < NR_CHANNELS h"
    and "\<forall>j. 0 \<le> j \<and> j < m \<longrightarrow> fst (bpmp_channel_area pf j) \<noteq> 0"
    and "fst (bpmp_channel_area pf m) = 0"
  shows "bpmp_connect h pf st =
    (- EFAULT, st\<lparr>arb_sema := of_iomap pf 1,
       io_log := io_log st @ concat (map (\<lambda>k. snd (bpmp_channel_area pf k)) [0..<Suc m])\<rparr>)"
  using assms hwaddr_from_fail [of 0 m h pf]
  by (simp add: bpmp_connect_def Let_def raw_readl_def STA_OFFSET_def)

lemma connect_all_addresses:
  assumes "of_iomap pf 0 \<noteq> 0" and "of_iomap pf 1 \<noteq> 0" and "arb_sema_sta st \<noteq> 0"
    and "\<forall>j<NR_CHANNELS h. fst (bpmp_channel_area pf j) \<noteq> 0"
  shows "fst (bpmp_connect h pf st) = 0"
  using assms hwaddr_from_ok [of 0 h pf]
  by (simp add: bpmp_connect_def Let_def raw_readl_def STA_OFFSET_def)

lemma first_zero:
  fixes f :: "nat \<Rightarrow> u32"
  assumes "f i = 0"
  obtains m where "m \<le> i" and "f m = 0" and "\<forall>j. 0 \<le> j \<and> j < m \<longrightarrow> f j \<noteq> 0"
proof -
  define m where "m = (LEAST j. f j = 0)"
  have "f m = 0" unfolding m_def using assms by (rule LeastI)
  moreover have "m \<le> i" unfolding m_def using assms by (rule Least_le)
  moreover have "\<forall>j. 0 \<le> j \<and> j < m \<longrightarrow> f j \<noteq> 0"
    unfolding m_def using not_less_Least by blast
  ultimately show ?thesis using that by blast
qed

subsection \<open>C7: the handshake stops at the first missing channel\<close>

text \<open>
  C7: with both windows present and a live status word, if the address query of a
  channel \<open>i\<close> returns zero then \<open>bpmp_connect\<close> returns \<open>- EFAULT\<close>; the device accesses
  it has made are the trigger write and result read of the channels 0 to \<open>m\<close> for some
  \<open>m \<le> i\<close>, so for no channel after \<open>i\<close> is there a result read or a trigger write; there
  is no call of \<open>ioremap\<close>, and \<open>channel_area\<close> is unchanged.
\<close>

theorem connect_fails_fast:
  assumes "of_iomap pf 0 \<noteq> 0" and "of_iomap pf 1 \<noteq> 0" and "arb_sema_sta st \<noteq> 0"
    and "i < NR_CHANNELS h" and "fst (bpmp_channel_area pf i) = 0"
  shows "fst (bpmp_connect h pf st) = - EFAULT \<and> fst (bpmp_connect h pf st) \<noteq> 0
    \<and> (\<exists>m. m \<le> i \<and> io_log (snd (bpmp_connect h pf st)) = io_log st @
          concat (map (\<lambda>k. [Writel (trigger_word k) TRIGGER_OFFSET, Readl (RESULT_OFFSET k)])
            [0..<Suc m]))
    \<and> (\<forall>j>i. Readl (RESULT_OFFSET j)
            \<notin> set (drop (length (io_log st)) (io_log (snd (bpmp_connect h pf st))))
          \<and> (j < 65536 \<longrightarrow> Writel (trigger_word j) TRIGGER_OFFSET
            \<notin> set (drop (length (io_log st)) (io_log (snd (bpmp_connect h pf st))))))
    \<and> (\<forall>a n. Ioremap a n
            \<notin> set (drop (length (io_log st)) (io_log (snd (bpmp_connect h pf st)))))
    \<and> channel_area (snd (bpmp_connect h pf st)) = channel_area st"
proof -
  let ?q = "\<lambda>k. [Writel (trigger_word k) TRIGGER_OFFSET, Readl (RESULT_OFFSET k)]"
  from assms(5) obtain m where mi: "m \<le> i" and mz: "fst (bpmp_channel_area pf m) = 0"
    and mf: "\<forall>j. 0 \<le> j \<and> j < m \<longrightarrow> fst (bpmp_channel_area pf j) \<noteq> 0"
    by (rule first_zero [of "\<lambda>k. fst (bpmp_channel_area pf k)" i])
  from mi assms(4) have mN: "m < NR_CHANNELS h" by simp
  have c: "bpmp_connect h pf st =
    (- EFAULT, st\<lparr>arb_sema := of_iomap pf 1, io_log := io_log st @ concat (map ?q [0..<Suc m])\<rparr>)"
    using connect_first_zero [OF assms(1-3) mN mf mz] by (simp add: channel_area_events)
  then have new: "drop (length (io_log st)) (io_log (snd (bpmp_connect h pf st)))
      = concat (map ?q [0..<Suc m])"
    by simp
  have rd: "Readl (RESULT_OFFSET j) \<notin> set (concat (map ?q [0..<Suc m]))" if "i < j" for j
    using that mi by (auto simp add: RESULT_OFFSET_def)
  have wr: "Writel (trigger_word j) TRIGGER_OFFSET \<notin> set (concat (map ?q [0..<Suc m]))"
    if "i < j" and "j < 65536" for j
  proof
    assume "Writel (trigger_word j) TRIGGER_OFFSET \<in> set (concat (map ?q [0..<Suc m]))"
    then obtain k where "k \<le> m" and "trigger_word j = trigger_word k"
      by (auto simp del: upt_Suc simp add: less_Suc_eq_le)
    with that mi have "j = k" by (intro trigger_word_inj) simp_all
    with \<open>k \<le> m\<close> mi that show False by simp
  qed
  have io: "Ioremap a n \<notin> set (concat (map ?q [0..<Suc m]))" for a n
    by auto
  from c have "fst (bpmp_connect h pf st) = - EFAULT"
    and "channel_area (snd (bpmp_connect h pf st)) = channel_area st"
    and "io_log (snd (bpmp_connect h pf st)) = io_log st @ concat (map ?q [0..<Suc m])"
    by simp_all
  moreover have "- EFAULT \<noteq> (0 :: int)" by (simp add: EFAULT_def)
  ultimately show ?thesis
    unfolding new using mi rd wr io by auto
qed


text \<open>The BPMP has not allocated the channels 2 and 5; the claim is read at channel 5.\<close>

theorem connect_fails_fast_witness:
  "of_iomap (example_platform [2, 5]) 0 \<noteq> 0 \<and> of_iomap (example_platform [2, 5]) 1 \<noteq> 0
    \<and> arb_sema_sta example_state \<noteq> 0 \<and> 5 < NR_CHANNELS t210_h
    \<and> fst (bpmp_channel_area (example_platform [2, 5]) 5) = 0
    \<and> fst (bpmp_connect t210_h (example_platform [2, 5]) example_state) = - EFAULT
    \<and> Readl (RESULT_OFFSET 6) \<notin> set (drop (length (io_log example_state))
          (io_log (snd (bpmp_connect t210_h (example_platform [2, 5]) example_state))))
    \<and> Writel (trigger_word 6) TRIGGER_OFFSET \<notin> set (drop (length (io_log example_state))
          (io_log (snd (bpmp_connect t210_h (example_platform [2, 5]) example_state))))
    \<and> channel_area (snd (bpmp_connect t210_h (example_platform [2, 5]) example_state))
        = channel_area example_state"
proof -
  have a: "of_iomap (example_platform [2, 5]) 0 \<noteq> 0"
    and b: "of_iomap (example_platform [2, 5]) 1 \<noteq> 0"
    by (simp_all add: example_platform_def)
  have c: "arb_sema_sta example_state \<noteq> 0" by (simp add: example_state_def)
  have d: "5 < NR_CHANNELS t210_h" by (simp add: t210_h_def)
  have e: "fst (bpmp_channel_area (example_platform [2, 5]) 5) = 0"
    by (simp add: bpmp_channel_area_def example_platform_def Let_def)
  have f: "(5 :: nat) < 6 \<and> (6 :: nat) < 65536" by simp
  from a b c d e f connect_fails_fast [OF a b c d e] show ?thesis by blast
qed

subsection \<open>C8: the error values of the handshake\<close>

text \<open>
  C8 says that the three failure modes of \<open>bpmp_connect\<close> give three distinct error
  values. The driver has two: a missing register window and an all-zero status word both
  give \<open>- ENODEV\<close>, and a channel address of zero gives \<open>- EFAULT\<close>, which differs from
  \<open>- ENODEV\<close>; both differ from the 0 of success.
\<close>

theorem connect_error_values:
  "(of_iomap pf 0 = 0 \<or> of_iomap pf 1 = 0 \<longrightarrow> fst (bpmp_connect h pf st) = - ENODEV)
    \<and> (of_iomap pf 0 \<noteq> 0 \<and> of_iomap pf 1 \<noteq> 0 \<and> arb_sema_sta st = 0 \<longrightarrow>
          fst (bpmp_connect h pf st) = - ENODEV)
    \<and> (of_iomap pf 0 \<noteq> 0 \<and> of_iomap pf 1 \<noteq> 0 \<and> arb_sema_sta st \<noteq> 0
          \<and> (\<exists>i<NR_CHANNELS h. fst (bpmp_channel_area pf i) = 0) \<longrightarrow>
          fst (bpmp_connect h pf st) = - EFAULT)
    \<and> (of_iomap pf 0 \<noteq> 0 \<and> of_iomap pf 1 \<noteq> 0 \<and> arb_sema_sta st \<noteq> 0
          \<and> (\<forall>i<NR_CHANNELS h. fst (bpmp_channel_area pf i) \<noteq> 0) \<longrightarrow>
          fst (bpmp_connect h pf st) = 0)
    \<and> - ENODEV \<noteq> - EFAULT \<and> - ENODEV \<noteq> 0 \<and> - EFAULT \<noteq> 0"
proof -
  have "fst (bpmp_connect h pf st) = - EFAULT"
    if "of_iomap pf 0 \<noteq> 0" and "of_iomap pf 1 \<noteq> 0" and "arb_sema_sta st \<noteq> 0"
      and "\<exists>i<NR_CHANNELS h. fst (bpmp_channel_area pf i) = 0"
  proof -
    from that(4) obtain i where "i < NR_CHANNELS h" and "fst (bpmp_channel_area pf i) = 0"
      by blast
    then obtain m where "m \<le> i" and "fst (bpmp_channel_area pf m) = 0"
      and "\<forall>j. 0 \<le> j \<and> j < m \<longrightarrow> fst (bpmp_channel_area pf j) \<noteq> 0"
      using first_zero [of "\<lambda>k. fst (bpmp_channel_area pf k)" i] by blast
    with \<open>i < NR_CHANNELS h\<close> that(1-3) show ?thesis
      using connect_first_zero [of pf st m h] by simp
  qed
  moreover have "- ENODEV \<noteq> - EFAULT \<and> - ENODEV \<noteq> 0 \<and> - EFAULT \<noteq> 0"
    by (simp add: ENODEV_def EFAULT_def)
  ultimately show ?thesis
    using connect_no_window [of pf h st] connect_no_liveness [of pf st h]
      connect_all_addresses [of pf st h]
    by blast
qed

text \<open>
  The example platform without its windows, with a dead status word, without channel 7,
  and complete.
\<close>

theorem connect_error_values_witness:
  "fst (bpmp_connect t210_h ((example_platform [])\<lparr>of_iomap := \<lambda>i. 0\<rparr>) example_state) = - ENODEV
    \<and> fst (bpmp_connect t210_h (example_platform []) (example_state\<lparr>arb_sema_sta := 0\<rparr>)) = - ENODEV
    \<and> fst (bpmp_connect t210_h (example_platform [7]) example_state) = - EFAULT
    \<and> fst (bpmp_connect t210_h (example_platform []) example_state) = 0"
proof -
  have w: "of_iomap ((example_platform [])\<lparr>of_iomap := \<lambda>i. 0\<rparr>) 0 = 0
      \<or> of_iomap ((example_platform [])\<lparr>of_iomap := \<lambda>i. 0\<rparr>) 1 = 0"
    by simp
  have p: "of_iomap (example_platform ms) 0 \<noteq> 0 \<and> of_iomap (example_platform ms) 1 \<noteq> 0" for ms
    by (simp add: example_platform_def)
  have z: "arb_sema_sta (example_state\<lparr>arb_sema_sta := 0\<rparr>) = 0" by simp
  have s: "arb_sema_sta example_state \<noteq> 0" by (simp add: example_state_def)
  have m: "\<exists>i<NR_CHANNELS t210_h. fst (bpmp_channel_area (example_platform [7]) i) = 0"
    by (rule exI [of _ 7])
      (simp add: t210_h_def bpmp_channel_area_def example_platform_def Let_def)
  have ok: "\<forall>i<NR_CHANNELS t210_h. fst (bpmp_channel_area (example_platform []) i) \<noteq> 0"
  proof (intro allI impI)
    fix i :: nat
    assume "i < NR_CHANNELS t210_h"
    then have "i = 0 \<or> i = 1 \<or> i = 2 \<or> i = 3 \<or> i = 4 \<or> i = 5 \<or> i = 6 \<or> i = 7 \<or> i = 8
        \<or> i = 9 \<or> i = 10 \<or> i = 11"
      unfolding t210_h_def by simp arith
    then show "fst (bpmp_channel_area (example_platform []) i) \<noteq> 0"
      by (elim disjE)
        (simp_all add: bpmp_channel_area_def example_platform_def Let_def trigger_word_def
          TRIGGER_ID_SHIFT_def TRIGGER_CMD_GET_def)
  qed
  from w connect_error_values [of "(example_platform [])\<lparr>of_iomap := \<lambda>i. 0\<rparr>" t210_h example_state]
  have "fst (bpmp_connect t210_h ((example_platform [])\<lparr>of_iomap := \<lambda>i. 0\<rparr>) example_state) = - ENODEV"
    by blast
  moreover from p z connect_error_values [of "example_platform []" t210_h "example_state\<lparr>arb_sema_sta := 0\<rparr>"]
  have "fst (bpmp_connect t210_h (example_platform []) (example_state\<lparr>arb_sema_sta := 0\<rparr>)) = - ENODEV"
    by blast
  moreover from p s m connect_error_values [of "example_platform [7]" t210_h example_state]
  have "fst (bpmp_connect t210_h (example_platform [7]) example_state) = - EFAULT"
    by blast
  moreover from p s ok connect_error_values [of "example_platform []" t210_h example_state]
  have "fst (bpmp_connect t210_h (example_platform []) example_state) = 0"
    by blast
  ultimately show ?thesis by blast
qed

text \<open>
  C8 as stated fails: the connect without register windows and the connect with an
  all-zero status word return the same value.
\<close>

theorem connect_errors_coincide:
  "fst (bpmp_connect t210_h ((example_platform [])\<lparr>of_iomap := \<lambda>i. 0\<rparr>) example_state)
    = fst (bpmp_connect t210_h (example_platform []) (example_state\<lparr>arb_sema_sta := 0\<rparr>))"
  by (simp add: bpmp_connect_def Let_def example_platform_def raw_readl_def)

end
